theory Spec2Isabelle
  imports Complex_Main "HOL-Library.Word"
begin

section \<open>The teleprompter and recorder controller\<close>

text \<open>
  The controller is the React component \<^verbatim>\<open>App\<close> of the teleprompter. Its state is the
  component's \<^verbatim>\<open>useState\<close> cells and \<^verbatim>\<open>useRef\<close> cells; every handler runs to completion on
  one event, so a handler is a function from the state before the event to the state after
  it. JavaScript numbers are modelled as reals: the claims below are about the order of
  comparisons and the arithmetic of offsets, not about IEEE rounding.

  What the browser does is not in the source. It enters the model in three ways:
  \<^item> values the browser computes are parameters of the handler that reads them (the
    support predicate \<^verbatim>\<open>MediaRecorder.isTypeSupported\<close>, the outcome of
    \<^verbatim>\<open>getUserMedia\<close>, of \<^verbatim>\<open>navigator.share\<close> and of the clipboard write);
  \<^item> the assignment to the \<^verbatim>\<open>scrollTop\<close> property of an element goes through a parameter
    \<open>wr\<close>: \<open>wr m v\<close> is the offset the layout engine stores when \<open>v\<close> is assigned on an
    element whose scrollable extent is \<open>m\<close>;
  \<^item> calls whose order matters (stopping a track, requesting a stream, sharing, the
    clipboard, alerts, the console) are appended to a log, the field \<open>calls\<close>; so is an
    exception that a handler does not catch.
\<close>

subsection \<open>Data\<close>

datatype facing = User | Environment

text \<open>\<^verbatim>\<open>interface TeleprompterConfig\<close>\<close>

record TeleprompterConfig =
  fontSize :: real
  color :: string
  speed :: real
  opacity :: real

text \<open>A \<^verbatim>\<open>MediaStream\<close>: its id and the ids of its tracks.\<close>

record media_stream =
  stream_id :: nat
  stream_tracks :: "nat list"

text \<open>The preview \<^verbatim>\<open><video>\<close> element, as far as the controller writes it.\<close>

record video_element =
  srcObject :: "media_stream option"

text \<open>The scrolling \<^verbatim>\<open><div>\<close>: the four layout properties the handlers read or write.\<close>

record scroll_element =
  scrollTop :: real
  scrollHeight :: real
  clientHeight :: real
  offsetTop :: real

text \<open>A \<^verbatim>\<open>Blob\<close>: its bytes and its type; \<^verbatim>\<open>size > 0\<close> is \<open>blob_bytes b \<noteq> []\<close>.\<close>

record blob =
  blob_bytes :: "8 word list"
  blob_type :: string

datatype recording_state = Inactive | Recording

text \<open>
  A \<^verbatim>\<open>MediaRecorder\<close> object: the stream and the options it was constructed with, its state,
  and the timeslice \<^verbatim>\<open>start\<close> was called with. The handlers \<^verbatim>\<open>ondataavailable\<close> and
  \<^verbatim>\<open>onstop\<close> installed on it are the functions \<open>recorder_ondataavailable\<close> and
  \<open>recorder_onstop\<close> below; the \<^verbatim>\<open>mimeType\<close> their closure captured is the object's own.
\<close>

record media_recorder =
  rec_stream :: media_stream
  rec_mimeType :: string
  rec_state :: recording_state
  rec_timeslice :: "nat option"

datatype constraints = Ideal facing | Basic

datatype alert_msg = LinkCopied

text \<open>
  An exception that leaves a handler uncaught. \<open>NotSupportedError t\<close> is the one the
  constructor of \<^verbatim>\<open>MediaRecorder\<close> raises for a type \<open>t\<close> it does not support.
\<close>

datatype dom_exception = NotSupportedError string

datatype call =
    TrackStop nat
  | GetUserMedia constraints
  | VideoPlay
  | ConsoleWarn string
  | ConsoleError string
  | NavigatorShare string
  | ClipboardWriteText string
  | Alert alert_msg
  | Uncaught dom_exception

text \<open>
  The component's state. The first block are the \<^verbatim>\<open>useState\<close> cells, the second the
  \<^verbatim>\<open>useRef\<close> cells, in the order of the source. \<open>videoUrl\<close> is the object URL of the
  result, modelled by the blob it resolves to. \<open>mediaRecorderRef\<close> is a reference into
  \<open>recorders\<close>, the recorder objects constructed so far. The script text and the handle of
  the pending animation frame are left out: the text enters only through the layout
  (\<open>scrollHeight\<close>), and a frame that fires is the event \<open>animate\<close>.
\<close>

record app =
  stream :: "media_stream option"
  isRecording :: bool
  facingMode :: facing
  videoUrl :: "blob option"
  recordedChunksRef :: "blob list"
  isEditing :: bool
  isScrolling :: bool
  config :: TeleprompterConfig
  showSettings :: bool
  videoRef :: "video_element option"
  mediaRecorderRef :: "nat option"
  scrollContainerRef :: "scroll_element option"
  streamRef :: "media_stream option"
  isDragging :: bool
  startY :: real
  startScrollTop :: real
  scrollPosRef :: real
  recorders :: "media_recorder list"
  calls :: "call list"

text \<open>The state of the first render, before the elements are mounted.\<close>

definition initial_app :: app where
  "initial_app =
    \<lparr> stream = None, isRecording = False, facingMode = User, videoUrl = None,
      recordedChunksRef = [], isEditing = False, isScrolling = False,
      config = \<lparr> fontSize = 32, color = ''#ffffff'', speed = 2, opacity = 0.4 \<rparr>,
      showSettings = False, videoRef = None, mediaRecorderRef = None,
      scrollContainerRef = None, streamRef = None, isDragging = False, startY = 0,
      startScrollTop = 0, scrollPosRef = 0, recorders = [], calls = [] \<rparr>"

subsection \<open>Scrolling\<close>

definition maxScroll :: "scroll_element \<Rightarrow> real" where
  "maxScroll el = scrollHeight el - clientHeight el"

text \<open>The assignment \<^verbatim>\<open>el.scrollTop = v\<close>.\<close>

definition set_scrollTop :: "(real \<Rightarrow> real \<Rightarrow> real) \<Rightarrow> real \<Rightarrow> scroll_element \<Rightarrow> scroll_element" where
  "set_scrollTop wr v el = el\<lparr>scrollTop := wr (maxScroll el) v\<rparr>"

text \<open>
  A layout engine that keeps every assigned offset inside the scrollable range, as a
  browser does for an element laid out top to bottom.
\<close>

definition clamped_write :: "real \<Rightarrow> real \<Rightarrow> real" where
  "clamped_write m v = max 0 (min v m)"


text \<open>One frame of the animation loop, \<^verbatim>\<open>animate\<close>.\<close>

definition animate :: "(real \<Rightarrow> real \<Rightarrow> real) \<Rightarrow> app \<Rightarrow> app" where
  "animate wr s =
    (case scrollContainerRef s of
       None \<Rightarrow> s
     | Some el \<Rightarrow>
         if isScrolling s \<and> \<not> isDragging s then
           let pos = scrollPosRef s + speed (config s) * 0.3;
               maxS = scrollHeight el - clientHeight el;
               atEnd = (pos \<ge> maxS);
               pos' = (if atEnd then maxS else pos)
           in s\<lparr> scrollPosRef := pos',
                 isScrolling := (if atEnd then False else isScrolling s),
                 scrollContainerRef := Some (set_scrollTop wr pos' el) \<rparr>
         else s\<lparr> scrollPosRef := scrollTop el \<rparr>)"

definition handleMouseDown :: "real \<Rightarrow> app \<Rightarrow> app" where
  "handleMouseDown pageY s =
    (case scrollContainerRef s of
       None \<Rightarrow> s
     | Some el \<Rightarrow>
         s\<lparr> isDragging := True,
            startY := pageY - offsetTop el,
            startScrollTop := scrollTop el,
            isScrolling := False \<rparr>)"

definition handleMouseMove :: "(real \<Rightarrow> real \<Rightarrow> real) \<Rightarrow> real \<Rightarrow> app \<Rightarrow> app" where
  "handleMouseMove wr pageY s =
    (if \<not> isDragging s then s
     else case scrollContainerRef s of
       None \<Rightarrow> s
     | Some el \<Rightarrow>
         let y = pageY - offsetTop el;
             walk = (y - startY s) * 1.5
         in s\<lparr> scrollContainerRef := Some (set_scrollTop wr (startScrollTop s - walk) el) \<rparr>)"

definition handleMouseUp :: "app \<Rightarrow> app" where
  "handleMouseUp s = s\<lparr> isDragging := False \<rparr>"

definition handleTouchStart :: "app \<Rightarrow> app" where
  "handleTouchStart s = s\<lparr> isScrolling := False \<rparr>"

text \<open>The play/pause button and the rewind button, whose handlers are inline.\<close>

definition toggleScrolling :: "app \<Rightarrow> app" where
  "toggleScrolling s = s\<lparr> isScrolling := \<not> isScrolling s \<rparr>"

definition resetScroll :: "(real \<Rightarrow> real \<Rightarrow> real) \<Rightarrow> app \<Rightarrow> app" where
  "resetScroll wr s =
    s\<lparr> scrollPosRef := 0,
       scrollContainerRef :=
         (case scrollContainerRef s of
            None \<Rightarrow> None
          | Some el \<Rightarrow> Some (set_scrollTop wr 0 el)) \<rparr>"

subsection \<open>Recording\<close>

definition mimeTypes :: "string list" where
  "mimeTypes =
    [''video/mp4;codecs=h264,aac'',
     ''video/mp4'',
     ''video/webm;codecs=vp9,opus'',
     ''video/webm;codecs=vp8,opus'',
     ''video/webm'']"

text \<open>
  \<^verbatim>\<open>mimeTypes.find(type => MediaRecorder.isTypeSupported(type)) || 'video/webm'\<close>:
  \<^verbatim>\<open>find\<close> gives the first accepted entry or \<^verbatim>\<open>undefined\<close>, and \<^verbatim>\<open>||\<close> replaces
  \<^verbatim>\<open>undefined\<close> and the empty string by the default.
\<close>

definition select_mimeType :: "(string \<Rightarrow> bool) \<Rightarrow> string" where
  "select_mimeType isTypeSupported =
    (case List.find isTypeSupported mimeTypes of
       None \<Rightarrow> ''video/webm''
     | Some t \<Rightarrow> if t = [] then ''video/webm'' else t)"

text \<open>
  \<^verbatim>\<open>startRecording\<close>. The constructor \<^verbatim>\<open>new MediaRecorder(stream, { mimeType })\<close> is not
  inside a \<^verbatim>\<open>try\<close>: for a type the support predicate rejects it raises
  \<^verbatim>\<open>NotSupportedError\<close>, and the handler ends there, after the two writes that precede
  the constructor and before the recorder is stored or started.
\<close>

definition startRecording :: "(string \<Rightarrow> bool) \<Rightarrow> app \<Rightarrow> app" where
  "startRecording isTypeSupported s =
    (case stream s of
       None \<Rightarrow> s
     | Some st \<Rightarrow>
         let s0 = s\<lparr> recordedChunksRef := [], videoUrl := None \<rparr>;
             mimeType = select_mimeType isTypeSupported
         in if \<not> isTypeSupported mimeType
            then s0\<lparr> calls := calls s0 @ [Uncaught (NotSupportedError mimeType)] \<rparr>
            else
              let recorder = \<lparr> rec_stream = st, rec_mimeType = mimeType,
                               rec_state = Recording, rec_timeslice = Some 1000 \<rparr>
              in s0\<lparr> recorders := recorders s0 @ [recorder],
                      mediaRecorderRef := Some (length (recorders s0)),
                      isRecording := True,
                      isScrolling := True \<rparr>)"

text \<open>\<^verbatim>\<open>recorder.ondataavailable\<close>, on a chunk \<open>d\<close> the encoder delivers.\<close>

definition recorder_ondataavailable :: "blob \<Rightarrow> app \<Rightarrow> app" where
  "recorder_ondataavailable d s =
    (if blob_bytes d \<noteq> [] then s\<lparr> recordedChunksRef := recordedChunksRef s @ [d] \<rparr> else s)"

text \<open>\<^verbatim>\<open>new Blob(parts, { type })\<close>\<close>

definition new_Blob :: "blob list \<Rightarrow> string \<Rightarrow> blob" where
  "new_Blob parts ty = \<lparr> blob_bytes = concat (map blob_bytes parts), blob_type = ty \<rparr>"

text \<open>\<^verbatim>\<open>recorder.onstop\<close> of the recorder object \<open>i\<close>, fired once that recorder has stopped.\<close>

definition recorder_onstop :: "nat \<Rightarrow> app \<Rightarrow> app" where
  "recorder_onstop i s =
    (if i < length (recorders s)
     then s\<lparr> videoUrl :=
               Some (new_Blob (recordedChunksRef s) (rec_mimeType (recorders s ! i))) \<rparr>
     else s)"

definition stopRecording :: "app \<Rightarrow> app" where
  "stopRecording s =
    (case mediaRecorderRef s of
       None \<Rightarrow> s
     | Some i \<Rightarrow>
         if isRecording s then
           s\<lparr> recorders := (recorders s)[i := (recorders s ! i)\<lparr> rec_state := Inactive \<rparr>],
              isRecording := False,
              isScrolling := False \<rparr>
         else s)"

text \<open>The record button: \<^verbatim>\<open>onClick={isRecording ? stopRecording : startRecording}\<close>.\<close>

definition recordButton :: "(string \<Rightarrow> bool) \<Rightarrow> app \<Rightarrow> app" where
  "recordButton isTypeSupported s =
    (if isRecording s then stopRecording s else startRecording isTypeSupported s)"

text \<open>The discard button of the result panel: \<^verbatim>\<open>setVideoUrl(null)\<close>.\<close>

definition discardVideo :: "app \<Rightarrow> app" where
  "discardVideo s = s\<lparr> videoUrl := None \<rparr>"

subsection \<open>Camera\<close>

text \<open>
  What the browser answers during one run of \<^verbatim>\<open>initCamera\<close>: the stream of the first
  \<^verbatim>\<open>getUserMedia\<close> request (\<open>None\<close> when it is rejected), whether \<^verbatim>\<open>play()\<close> succeeds,
  and the stream of the retry with basic constraints.
\<close>

record camera_outcome =
  first_request :: "media_stream option"
  play_ok :: bool
  retry_request :: "media_stream option"

text \<open>Step 1 of \<^verbatim>\<open>initCamera\<close>: stop every track of the held stream and drop it.\<close>

definition release_held :: "app \<Rightarrow> app" where
  "release_held s =
    (case streamRef s of
       None \<Rightarrow> s
     | Some st \<Rightarrow>
         s\<lparr> calls := calls s @ map TrackStop (stream_tracks st), streamRef := None \<rparr>)"

text \<open>Step 2: clear the source of the preview.\<close>

definition clear_video :: "app \<Rightarrow> app" where
  "clear_video s =
    (case videoRef s of
       None \<Rightarrow> s
     | Some v \<Rightarrow> s\<lparr> videoRef := Some (v\<lparr> srcObject := None \<rparr>) \<rparr>)"

text \<open>
  \<^verbatim>\<open>initCamera\<close> up to its first \<^verbatim>\<open>await\<close>: steps 1 and 2, then the request for a stream
  with the facing mode of the current render. These run without interruption.
\<close>

definition initCamera_sync :: "app \<Rightarrow> app" where
  "initCamera_sync s =
    (let s1 = clear_video (release_held s)
     in s1\<lparr> calls := calls s1 @ [GetUserMedia (Ideal (facingMode s))] \<rparr>)"

text \<open>The rest of \<^verbatim>\<open>initCamera\<close>, once the browser has answered.\<close>

definition initCamera_settle :: "camera_outcome \<Rightarrow> app \<Rightarrow> app" where
  "initCamera_settle out s =
    (case first_request out of
       Some newStream \<Rightarrow>
         (let s1 = s\<lparr> streamRef := Some newStream, stream := Some newStream \<rparr>
          in case videoRef s1 of
               None \<Rightarrow> s1
             | Some v \<Rightarrow>
                 (let s2 = s1\<lparr> videoRef := Some (v\<lparr> srcObject := Some newStream \<rparr>),
                              calls := calls s1 @ [VideoPlay] \<rparr>
                  in if play_ok out then s2
                     else s2\<lparr> calls := calls s2 @ [ConsoleWarn ''Auto-play failed:''] \<rparr>))
     | None \<Rightarrow>
         (let s1 = s\<lparr> calls := calls s @
                      [ConsoleError ''Error accessing camera:'', GetUserMedia Basic] \<rparr>
          in case retry_request out of
               Some basicStream \<Rightarrow>
                 s1\<lparr> streamRef := Some basicStream,
                     stream := Some basicStream,
                     videoRef :=
                       (case videoRef s1 of
                          None \<Rightarrow> None
                        | Some v \<Rightarrow> Some (v\<lparr> srcObject := Some basicStream \<rparr>)) \<rparr>
             | None \<Rightarrow> s1\<lparr> calls := calls s1 @ [ConsoleError ''Retry failed:''] \<rparr>))"

definition initCamera :: "camera_outcome \<Rightarrow> app \<Rightarrow> app" where
  "initCamera out s = initCamera_settle out (initCamera_sync s)"

text \<open>The cleanup of the camera effect: stop the tracks of the held stream, keep the ref.\<close>

definition camera_effect_cleanup :: "app \<Rightarrow> app" where
  "camera_effect_cleanup s =
    (case streamRef s of
       None \<Rightarrow> s
     | Some st \<Rightarrow> s\<lparr> calls := calls s @ map TrackStop (stream_tracks st) \<rparr>)"

definition toggleCamera :: "app \<Rightarrow> app" where
  "toggleCamera s =
    s\<lparr> facingMode := (if facingMode s = User then Environment else User) \<rparr>"

text \<open>
  A press on the camera button: \<^verbatim>\<open>toggleCamera\<close>, and, since \<^verbatim>\<open>initCamera\<close> depends on
  \<^verbatim>\<open>facingMode\<close>, the effect's cleanup followed by the new \<^verbatim>\<open>initCamera\<close>, here up to
  its first \<^verbatim>\<open>await\<close>.
\<close>

definition switch_camera_sync :: "app \<Rightarrow> app" where
  "switch_camera_sync s = initCamera_sync (camera_effect_cleanup (toggleCamera s))"

text \<open>The tracks of a stream that no call has stopped yet.\<close>

definition live_tracks :: "app \<Rightarrow> media_stream \<Rightarrow> nat list" where
  "live_tracks s st = filter (\<lambda>t. TrackStop t \<notin> set (calls s)) (stream_tracks st)"

subsection \<open>Sharing the application\<close>



subsection \<open>Events\<close>

text \<open>
  The events of the scroll container, the animation frame and the three buttons that act on
  scrolling and recording, each with the handler the component binds to it.
\<close>

datatype event =
    Frame
  | MouseDown real
  | MouseMove real
  | MouseUp
  | MouseLeave
  | TouchStart
  | PlayPause
  | Rewind
  | RecordPress

fun handle :: "(real \<Rightarrow> real \<Rightarrow> real) \<Rightarrow> (string \<Rightarrow> bool) \<Rightarrow> event \<Rightarrow> app \<Rightarrow> app" where
  "handle wr supp Frame s = animate wr s"
| "handle wr supp (MouseDown y) s = handleMouseDown y s"
| "handle wr supp (MouseMove y) s = handleMouseMove wr y s"
| "handle wr supp MouseUp s = handleMouseUp s"
| "handle wr supp MouseLeave s = handleMouseUp s"
| "handle wr supp TouchStart s = handleTouchStart s"
| "handle wr supp PlayPause s = toggleScrolling s"
| "handle wr supp Rewind s = resetScroll wr s"
| "handle wr supp RecordPress s = recordButton supp s"

fun run :: "(real \<Rightarrow> real \<Rightarrow> real) \<Rightarrow> (string \<Rightarrow> bool) \<Rightarrow> event list \<Rightarrow> app \<Rightarrow> app" where
  "run wr supp [] s = s"
| "run wr supp (e # es) s = run wr supp es (handle wr supp e s)"

text \<open>The events that switch auto-scroll on: the play button and the record button.\<close>

fun reenables :: "event \<Rightarrow> bool" where
  "reenables PlayPause = True"
| "reenables RecordPress = True"
| "reenables _ = False"



text \<open>
  A recorder object that is recording is the one the component holds as its current
  session.
\<close>

definition one_session :: "app \<Rightarrow> bool" where
  "one_session s =
    (\<forall>j < length (recorders s).
       rec_state (recorders s ! j) = Recording \<longrightarrow>
       isRecording s \<and> mediaRecorderRef s = Some j)"

subsection \<open>States of the scenarios\<close>

text \<open>
  A mounted scroll container whose content exceeds the viewport by 1000, scrolled to
  offset \<open>p\<close>, with auto-scroll running at speed \<open>v\<close>.
\<close>

definition scrolling_at :: "real \<Rightarrow> real \<Rightarrow> app" where
  "scrolling_at p v =
    initial_app
      \<lparr> isScrolling := True,
        config := (config initial_app)\<lparr> speed := v \<rparr>,
        scrollContainerRef :=
          Some \<lparr> scrollTop = p, scrollHeight = 1500, clientHeight = 500, offsetTop = 0 \<rparr>,
        scrollPosRef := p \<rparr>"

text \<open>A browser that supports the last listed type only.\<close>

definition webm_only :: "string \<Rightarrow> bool" where
  "webm_only t = (t = ''video/webm'')"

text \<open>A browser whose encoder supports none of the listed types.\<close>

definition no_codec :: "string \<Rightarrow> bool" where
  "no_codec t = False"

definition front_camera :: media_stream where
  "front_camera = \<lparr> stream_id = 1, stream_tracks = [10, 11] \<rparr>"

definition back_camera :: media_stream where
  "back_camera = \<lparr> stream_id = 2, stream_tracks = [20, 21] \<rparr>"

text \<open>The component once the front camera has been acquired.\<close>

definition camera_ready :: app where
  "camera_ready = initial_app\<lparr> stream := Some front_camera, streamRef := Some front_camera \<rparr>"

text \<open>A recording in progress with one chunk of three bytes buffered.\<close>

definition recording_app :: app where
  "recording_app =
    recorder_ondataavailable \<lparr> blob_bytes = [1, 2, 3], blob_type = ''video/webm'' \<rparr>
      (startRecording webm_only camera_ready)"



definition back_granted :: camera_outcome where
  "back_granted = \<lparr> first_request = Some back_camera, play_ok = True, retry_request = None \<rparr>"

definition front_again :: media_stream where
  "front_again = \<lparr> stream_id = 3, stream_tracks = [30, 31] \<rparr>"

definition front_again_granted :: camera_outcome where
  "front_again_granted =
    \<lparr> first_request = Some front_again, play_ok = True, retry_request = None \<rparr>"

text \<open>
  Two presses on the camera button while the front camera is held, the second before the
  browser has answered the request of the first; then the two answers, in the order of the
  requests.
\<close>

definition double_toggle :: app where
  "double_toggle =
    initCamera_settle front_again_granted
      (initCamera_settle back_granted
        (switch_camera_sync (switch_camera_sync camera_ready)))"

section \<open>Properties\<close>

subsection \<open>The animation tick\<close>

text \<open>
  C1 (amended). One frame taken with \<open>isScrolling\<close> true and \<open>isDragging\<close> false advances
  the position by \<open>speed * 0.3\<close>; when the result reaches or exceeds the scrollable extent
  the position is set to the extent and \<open>isScrolling\<close> becomes false, and otherwise
  \<open>isScrolling\<close> stays true.
\<close>

theorem animate_auto_tick:
  assumes "scrollContainerRef s = Some el" and "isScrolling s" and "\<not> isDragging s"
  shows "scrollPosRef (animate wr s) =
           (if scrollPosRef s + speed (config s) * 0.3 \<ge> maxScroll el
            then maxScroll el else scrollPosRef s + speed (config s) * 0.3)
         \<and> isScrolling (animate wr s) =
           (scrollPosRef s + speed (config s) * 0.3 < maxScroll el)"
  using assms by (auto simp: animate_def maxScroll_def Let_def)

text \<open>
  At extent 1000, position 995 and speed 10 the frame advances by 3: the position is 998
  and auto-scroll is still on.
\<close>

theorem animate_auto_tick_witness:
  "scrollContainerRef (scrolling_at 995 10) =
     Some \<lparr> scrollTop = 995, scrollHeight = 1500, clientHeight = 500, offsetTop = 0 \<rparr>
   \<and> isScrolling (scrolling_at 995 10)
   \<and> \<not> isDragging (scrolling_at 995 10)
   \<and> scrollPosRef (animate clamped_write (scrolling_at 995 10)) = 998
   \<and> isScrolling (animate clamped_write (scrolling_at 995 10))"
  using animate_auto_tick [of "scrolling_at 995 10"
      "\<lparr> scrollTop = 995, scrollHeight = 1500, clientHeight = 500, offsetTop = 0 \<rparr>"
      clamped_write]
  by (simp add: scrolling_at_def initial_app_def maxScroll_def)

text \<open>
  C1 as stated fails at its own scenario: one frame from 995 at speed 10 does not reach
  1000 and does not switch auto-scroll off.
\<close>

theorem animate_scenario_counterexample:
  "\<not> (scrollPosRef (animate clamped_write (scrolling_at 995 10)) = 1000
      \<and> isScrolling (animate clamped_write (scrolling_at 995 10)) = False)"
  by (simp add: animate_def scrolling_at_def initial_app_def set_scrollTop_def
      maxScroll_def clamped_write_def Let_def)

subsection \<open>Starting a recording\<close>

lemma mimeTypes_nonempty: "[] \<notin> set mimeTypes"
  by (simp add: mimeTypes_def)

lemma select_mimeType_first:
  assumes "i < length mimeTypes" and "supp (mimeTypes ! i)"
    and "\<forall>j<i. \<not> supp (mimeTypes ! j)"
  shows "select_mimeType supp = mimeTypes ! i"
proof -
  have "List.find supp mimeTypes = Some (mimeTypes ! i)"
    using assms by (auto simp: find_Some_iff)
  moreover have "mimeTypes ! i \<noteq> []"
    using assms(1) mimeTypes_nonempty by (metis nth_mem)
  ultimately show ?thesis by (simp add: select_mimeType_def)
qed

lemma select_mimeType_none:
  assumes "\<forall>t\<in>set mimeTypes. \<not> supp t"
  shows "select_mimeType supp = ''video/webm''"
proof -
  have "List.find supp mimeTypes = None"
    using assms by (simp add: find_None_iff)
  then show ?thesis by (simp add: select_mimeType_def)
qed

lemma select_webm_only: "select_mimeType webm_only = ''video/webm''"
  by (simp add: select_mimeType_def mimeTypes_def webm_only_def)

lemma webm_only_webm: "webm_only ''video/webm''"
  by (simp add: webm_only_def)

lemma webm_only_selected: "webm_only (select_mimeType webm_only)"
  unfolding select_webm_only by (rule webm_only_webm)

lemma select_no_codec: "select_mimeType no_codec = ''video/webm''"
  by (simp add: select_mimeType_def mimeTypes_def no_codec_def)

text \<open>The selected type is supported exactly when some listed type is.\<close>

lemma select_supported_iff:
  "supp (select_mimeType supp) \<longleftrightarrow> (\<exists>t\<in>set mimeTypes. supp t)"
proof
  assume a: "supp (select_mimeType supp)"
  show "\<exists>t\<in>set mimeTypes. supp t"
  proof (rule ccontr)
    assume "\<not> (\<exists>t\<in>set mimeTypes. supp t)"
    then have n: "\<forall>t\<in>set mimeTypes. \<not> supp t" by blast
    then have "select_mimeType supp = ''video/webm''" by (rule select_mimeType_none)
    moreover have "''video/webm'' \<in> set mimeTypes" by (simp add: mimeTypes_def)
    ultimately show False using a n by auto
  qed
next
  assume "\<exists>t\<in>set mimeTypes. supp t"
  then have "List.find supp mimeTypes \<noteq> None" by (auto simp: find_None_iff)
  then obtain x where x: "List.find supp mimeTypes = Some x" by blast
  then have "supp x" and "x \<in> set mimeTypes"
    by (auto simp: find_Some_iff)
  then have "x \<noteq> []" using mimeTypes_nonempty by auto
  then have "select_mimeType supp = x" using x by (simp add: select_mimeType_def)
  then show "supp (select_mimeType supp)" using \<open>supp x\<close> by simp
qed

lemma startRecording_accepted:
  assumes "stream s = Some st" and "supp (select_mimeType supp)"
  shows "startRecording supp s =
           s\<lparr> recordedChunksRef := [], videoUrl := None,
              recorders := recorders s @
                [\<lparr> rec_stream = st, rec_mimeType = select_mimeType supp,
                   rec_state = Recording, rec_timeslice = Some 1000 \<rparr>],
              mediaRecorderRef := Some (length (recorders s)),
              isRecording := True, isScrolling := True \<rparr>"
  using assms by (simp add: startRecording_def Let_def)

lemma startRecording_refused:
  assumes "stream s = Some st" and "\<not> supp (select_mimeType supp)"
  shows "startRecording supp s =
           s\<lparr> recordedChunksRef := [], videoUrl := None,
              calls := calls s @ [Uncaught (NotSupportedError (select_mimeType supp))] \<rparr>"
  using assms by (simp add: startRecording_def Let_def)

text \<open>
  C4. The type \<^verbatim>\<open>startRecording\<close> hands to the constructor of the recorder is
  \<open>select_mimeType\<close> of the support predicate: the first entry of the preference list that
  the predicate accepts, the default \<^verbatim>\<open>video/webm\<close> when it accepts none, and hence the last
  entry when that is the only one it accepts. When the predicate accepts the selected type
  the recorder is constructed with it; when it does not, which is the default case, the
  constructor refuses it and no recorder is stored.
\<close>

theorem startRecording_codec:
  assumes "stream s = Some st"
  shows "(supp (select_mimeType supp) \<longrightarrow>
            recorders (startRecording supp s) =
              recorders s @ [\<lparr> rec_stream = st, rec_mimeType = select_mimeType supp,
                                 rec_state = Recording, rec_timeslice = Some 1000 \<rparr>])
         \<and> (\<not> supp (select_mimeType supp) \<longrightarrow>
              recorders (startRecording supp s) = recorders s
              \<and> calls (startRecording supp s) =
                  calls s @ [Uncaught (NotSupportedError (select_mimeType supp))])
         \<and> (\<forall>i < length mimeTypes.
              supp (mimeTypes ! i) \<and> (\<forall>j<i. \<not> supp (mimeTypes ! j))
              \<longrightarrow> select_mimeType supp = mimeTypes ! i)
         \<and> ((\<forall>t\<in>set mimeTypes. \<not> supp t) \<longrightarrow> select_mimeType supp = ''video/webm'')
         \<and> ((\<forall>t\<in>set mimeTypes. supp t = (t = last mimeTypes))
              \<longrightarrow> select_mimeType supp = last mimeTypes)"
proof -
  have a: "supp (select_mimeType supp) \<longrightarrow>
            recorders (startRecording supp s) =
              recorders s @ [\<lparr> rec_stream = st, rec_mimeType = select_mimeType supp,
                                 rec_state = Recording, rec_timeslice = Some 1000 \<rparr>]"
    using assms by (simp add: startRecording_accepted)
  have a': "\<not> supp (select_mimeType supp) \<longrightarrow>
              recorders (startRecording supp s) = recorders s
              \<and> calls (startRecording supp s) =
                  calls s @ [Uncaught (NotSupportedError (select_mimeType supp))]"
    using assms by (simp add: startRecording_refused)
  have b: "\<forall>i < length mimeTypes.
              supp (mimeTypes ! i) \<and> (\<forall>j<i. \<not> supp (mimeTypes ! j))
              \<longrightarrow> select_mimeType supp = mimeTypes ! i"
    using select_mimeType_first by blast
  have c: "(\<forall>t\<in>set mimeTypes. \<not> supp t) \<longrightarrow> select_mimeType supp = ''video/webm''"
    using select_mimeType_none by blast
  have d: "(\<forall>t\<in>set mimeTypes. supp t = (t = last mimeTypes))
              \<longrightarrow> select_mimeType supp = last mimeTypes"
  proof
    assume h: "\<forall>t\<in>set mimeTypes. supp t = (t = last mimeTypes)"
    have l: "last mimeTypes = mimeTypes ! 4" by (simp add: mimeTypes_def)
    have "select_mimeType supp = mimeTypes ! 4"
    proof (rule select_mimeType_first)
      show "4 < length mimeTypes" by (simp add: mimeTypes_def)
      show "supp (mimeTypes ! 4)" using h l by (simp add: mimeTypes_def)
      show "\<forall>j<4. \<not> supp (mimeTypes ! j)"
      proof (intro allI impI)
        fix j :: nat assume "j < 4"
        then have "j = 0 \<or> j = 1 \<or> j = 2 \<or> j = 3" by arith
        then show "\<not> supp (mimeTypes ! j)"
          using h by (auto simp: mimeTypes_def)
      qed
    qed
    with l show "select_mimeType supp = last mimeTypes" by simp
  qed
  from a a' b c d show ?thesis by blast
qed

theorem startRecording_codec_witness:
  "stream camera_ready = Some front_camera
   \<and> webm_only (select_mimeType webm_only)
   \<and> recorders (startRecording webm_only camera_ready) =
       [\<lparr> rec_stream = front_camera, rec_mimeType = ''video/webm'',
          rec_state = Recording, rec_timeslice = Some 1000 \<rparr>]
   \<and> select_mimeType webm_only = mimeTypes ! 4
   \<and> select_mimeType no_codec = ''video/webm''
   \<and> recorders (startRecording no_codec camera_ready) = []
   \<and> calls (startRecording no_codec camera_ready) =
       [Uncaught (NotSupportedError ''video/webm'')]
   \<and> select_mimeType (\<lambda>t. t = ''video/mp4'' \<or> t = ''video/webm'') = ''video/mp4''"
proof -
  have s: "stream camera_ready = Some front_camera"
    by (simp add: camera_ready_def initial_app_def)
  have e: "recorders camera_ready = []" "calls camera_ready = []"
    by (simp_all add: camera_ready_def initial_app_def)
  note t = startRecording_codec [OF s, of webm_only]
  note u = startRecording_codec [OF s, of no_codec]
  note v = startRecording_codec [OF s, of "\<lambda>t. t = ''video/mp4'' \<or> t = ''video/webm''"]
  have 1: "recorders (startRecording webm_only camera_ready) =
      recorders camera_ready @
        [\<lparr> rec_stream = front_camera, rec_mimeType = select_mimeType webm_only,
           rec_state = Recording, rec_timeslice = Some 1000 \<rparr>]"
    using t webm_only_selected by blast
  have p: "\<forall>t\<in>set mimeTypes. webm_only t = (t = last mimeTypes)"
    by (simp add: mimeTypes_def webm_only_def)
  have 2: "select_mimeType webm_only = last mimeTypes"
    using t p by blast
  have n: "\<forall>t\<in>set mimeTypes. \<not> no_codec t"
    by (simp add: no_codec_def)
  have 3: "select_mimeType no_codec = ''video/webm''"
    using u n by blast
  have n': "\<not> no_codec (select_mimeType no_codec)"
    by (simp add: no_codec_def)
  have 5: "recorders (startRecording no_codec camera_ready) = recorders camera_ready
      \<and> calls (startRecording no_codec camera_ready) =
          calls camera_ready @ [Uncaught (NotSupportedError (select_mimeType no_codec))]"
    using u n' by blast
  have q: "(1::nat) < length mimeTypes" by (simp add: mimeTypes_def)
  have r: "(\<lambda>t. t = ''video/mp4'' \<or> t = ''video/webm'') (mimeTypes ! 1)
      \<and> (\<forall>j<1. \<not> (\<lambda>t. t = ''video/mp4'' \<or> t = ''video/webm'') (mimeTypes ! j))"
    by (simp add: mimeTypes_def)
  have 4: "select_mimeType (\<lambda>t. t = ''video/mp4'' \<or> t = ''video/webm'') = mimeTypes ! 1"
    using v q r by blast
  show ?thesis
    using s 1 2 3 4 5
    by (simp add: mimeTypes_def e select_webm_only webm_only_webm)
qed

text \<open>
  C8. Without a camera stream \<^verbatim>\<open>startRecording\<close> returns at once: the state is the same,
  so \<open>isRecording\<close>, \<open>isScrolling\<close>, the recorder objects, the chunk buffer and the result
  handle are what they were.
\<close>

theorem startRecording_without_stream:
  assumes "stream s = None"
  shows "startRecording supp s = s"
  using assms by (simp add: startRecording_def)

theorem startRecording_without_stream_witness:
  "stream initial_app = None \<and> startRecording webm_only initial_app = initial_app"
  using startRecording_without_stream [of initial_app webm_only]
  by (simp add: initial_app_def)

subsection \<open>Recording sessions\<close>

lemma fold_empty_chunks:
  "\<forall>d\<in>set ds. blob_bytes d = [] \<Longrightarrow> fold recorder_ondataavailable ds s = s"
  by (induction ds arbitrary: s) (simp_all add: recorder_ondataavailable_def)

text \<open>
  C5 as stated fails on a browser whose encoder supports none of the listed types: the
  constructor refuses the default type, \<^verbatim>\<open>startRecording\<close> ends without a recorder and with
  \<open>isRecording\<close> still false, \<^verbatim>\<open>stopRecording\<close> finds nothing to stop, no \<^verbatim>\<open>onstop\<close>
  callback has anything to assemble, and the result handle stays null.
\<close>

theorem start_stop_unsupported_counterexample:
  "stream camera_ready = Some front_camera
   \<and> recorders (startRecording no_codec camera_ready) = []
   \<and> \<not> isRecording (startRecording no_codec camera_ready)
   \<and> stopRecording (startRecording no_codec camera_ready) = startRecording no_codec camera_ready
   \<and> (\<forall>i. videoUrl (recorder_onstop i (stopRecording (startRecording no_codec camera_ready)))
          = None)"
  by (simp add: startRecording_def stopRecording_def recorder_onstop_def select_no_codec
      no_codec_def camera_ready_def initial_app_def Let_def)

text \<open>
  C5 (amended). From any state that holds a camera stream, on a browser whose encoder
  supports the selected type, \<^verbatim>\<open>startRecording\<close>, then \<^verbatim>\<open>stopRecording\<close>, then the
  \<^verbatim>\<open>onstop\<close> callback of the recorder just stopped, with only empty chunks delivered
  before and after the stop, leave a result: the blob of no bytes with the selected type;
  \<open>isRecording\<close> is false, so the review panel is shown.
\<close>

theorem start_stop_roundtrip:
  assumes "stream s = Some st"
    and "supp (select_mimeType supp)"
    and "\<forall>d\<in>set ds1. blob_bytes d = []"
    and "\<forall>d\<in>set ds2. blob_bytes d = []"
  shows "let i = length (recorders s);
             s1 = fold recorder_ondataavailable ds1 (startRecording supp s);
             s2 = fold recorder_ondataavailable ds2 (stopRecording s1);
             s3 = recorder_onstop i s2
         in isRecording s1 \<and> mediaRecorderRef s1 = Some i
            \<and> videoUrl s2 = None
            \<and> videoUrl s3 = Some \<lparr> blob_bytes = [], blob_type = select_mimeType supp \<rparr>
            \<and> videoUrl s3 = Some (new_Blob [] (select_mimeType supp))
            \<and> \<not> isRecording s3
            \<and> rec_state (recorders s3 ! i) = Inactive"
proof -
  have a: "startRecording supp s =
           s\<lparr> recordedChunksRef := [], videoUrl := None,
              recorders := recorders s @
                [\<lparr> rec_stream = st, rec_mimeType = select_mimeType supp,
                   rec_state = Recording, rec_timeslice = Some 1000 \<rparr>],
              mediaRecorderRef := Some (length (recorders s)),
              isRecording := True, isScrolling := True \<rparr>"
    using assms(1,2) by (rule startRecording_accepted)
  show ?thesis
    using assms(3,4)
    by (simp add: fold_empty_chunks Let_def a stopRecording_def recorder_onstop_def
        new_Blob_def nth_append)
qed

theorem start_stop_roundtrip_witness:
  "stream camera_ready = Some front_camera
   \<and> webm_only (select_mimeType webm_only)
   \<and> videoUrl (recorder_onstop 0 (stopRecording (startRecording webm_only camera_ready))) =
       Some \<lparr> blob_bytes = [], blob_type = ''video/webm'' \<rparr>
   \<and> \<not> isRecording (recorder_onstop 0 (stopRecording (startRecording webm_only camera_ready)))"
proof -
  have s: "stream camera_ready = Some front_camera"
    by (simp add: camera_ready_def initial_app_def)
  have r: "recorders camera_ready = []"
    by (simp add: camera_ready_def initial_app_def)
  show ?thesis
    using start_stop_roundtrip [where s = camera_ready and st = front_camera
        and supp = webm_only and ?ds1.0 = "[]" and ?ds2.0 = "[]"]
      s r webm_only_webm select_webm_only
    by (simp add: Let_def)
qed

text \<open>
  C2 as stated fails: \<^verbatim>\<open>startRecording\<close> tests the stream only. Called while a session
  is recording, it empties the chunk buffer and constructs a second recorder.
\<close>

theorem startRecording_while_recording_counterexample:
  "isRecording recording_app
   \<and> recordedChunksRef recording_app \<noteq> recordedChunksRef (startRecording webm_only recording_app)
   \<and> length (recorders recording_app) = 1
   \<and> length (recorders (startRecording webm_only recording_app)) = 2
   \<and> mediaRecorderRef recording_app \<noteq> mediaRecorderRef (startRecording webm_only recording_app)"
  by (simp add: recording_app_def recorder_ondataavailable_def startRecording_def
      webm_only_webm select_webm_only camera_ready_def initial_app_def Let_def)

lemma one_session_startRecording:
  assumes "one_session s" and "\<not> isRecording s"
  shows "one_session (startRecording supp s)"
proof (cases "stream s")
  case None
  then show ?thesis using assms by (simp add: startRecording_def)
next
  case (Some st)
  have idle: "\<forall>j < length (recorders s). rec_state (recorders s ! j) \<noteq> Recording"
    using assms by (auto simp: one_session_def)
  show ?thesis
    using Some idle
    by (auto simp: one_session_def startRecording_def Let_def nth_append less_Suc_eq)
qed

lemma one_session_stopRecording:
  assumes "one_session s"
  shows "one_session (stopRecording s)"
proof (cases "mediaRecorderRef s")
  case None
  then show ?thesis using assms by (simp add: stopRecording_def)
next
  case (Some i)
  show ?thesis
  proof (cases "isRecording s")
    case False
    then show ?thesis using assms Some by (simp add: stopRecording_def)
  next
    case True
    have only: "\<forall>j < length (recorders s). rec_state (recorders s ! j) = Recording \<longrightarrow> j = i"
      using assms Some by (auto simp: one_session_def)
    have "\<forall>j < length (recorders s).
            rec_state ((recorders s)[i := (recorders s ! i)\<lparr> rec_state := Inactive \<rparr>] ! j)
              \<noteq> Recording"
    proof (intro allI impI)
      fix j assume j: "j < length (recorders s)"
      show "rec_state ((recorders s)[i := (recorders s ! i)\<lparr> rec_state := Inactive \<rparr>] ! j)
              \<noteq> Recording"
      proof (cases "j = i")
        case True
        then show ?thesis using j by simp
      next
        case False
        then show ?thesis using only j by auto
      qed
    qed
    then show ?thesis
      using Some True by (simp add: one_session_def stopRecording_def)
  qed
qed

lemma one_session_handle:
  assumes "one_session s"
  shows "one_session (handle wr supp e s)"
proof (cases e)
  case RecordPress
  then show ?thesis
    using assms one_session_startRecording one_session_stopRecording
    by (simp add: recordButton_def)
next
  case Frame
  then show ?thesis
    using assms by (auto simp: one_session_def animate_def Let_def split: option.splits)
next
  case (MouseDown y)
  then show ?thesis
    using assms by (auto simp: one_session_def handleMouseDown_def split: option.splits)
next
  case (MouseMove y)
  then show ?thesis
    using assms
    by (auto simp: one_session_def handleMouseMove_def Let_def split: option.splits)
qed (use assms in \<open>auto simp: one_session_def handleMouseUp_def handleTouchStart_def
      toggleScrolling_def resetScroll_def\<close>)

lemma one_session_run:
  "one_session s \<Longrightarrow> one_session (run wr supp evs s)"
  by (induction evs arbitrary: s) (simp_all add: one_session_handle)

text \<open>
  C2 (amended). The state check is in the record button: while \<open>isRecording\<close> is true a
  press runs \<^verbatim>\<open>stopRecording\<close>, never \<^verbatim>\<open>startRecording\<close>, so it constructs no recorder and
  leaves the chunk buffer and the result handle as they are. Hence, along every sequence of
  events, no two recorder objects are recording at the same time.
\<close>

theorem record_button_gate:
  assumes "one_session s"
  shows "(isRecording s \<longrightarrow>
            recordButton supp s = stopRecording s
            \<and> length (recorders (recordButton supp s)) = length (recorders s)
            \<and> recordedChunksRef (recordButton supp s) = recordedChunksRef s
            \<and> videoUrl (recordButton supp s) = videoUrl s
            \<and> mediaRecorderRef (recordButton supp s) = mediaRecorderRef s)
         \<and> (\<forall>j k. j < length (recorders (run wr supp evs s))
                \<and> k < length (recorders (run wr supp evs s))
                \<and> rec_state (recorders (run wr supp evs s) ! j) = Recording
                \<and> rec_state (recorders (run wr supp evs s) ! k) = Recording
              \<longrightarrow> j = k)"
proof -
  have a: "isRecording s \<longrightarrow>
            recordButton supp s = stopRecording s
            \<and> length (recorders (recordButton supp s)) = length (recorders s)
            \<and> recordedChunksRef (recordButton supp s) = recordedChunksRef s
            \<and> videoUrl (recordButton supp s) = videoUrl s
            \<and> mediaRecorderRef (recordButton supp s) = mediaRecorderRef s"
    by (simp add: recordButton_def stopRecording_def split: option.splits)
  have "one_session (run wr supp evs s)"
    using assms by (rule one_session_run)
  then have b: "\<forall>j k. j < length (recorders (run wr supp evs s))
                \<and> k < length (recorders (run wr supp evs s))
                \<and> rec_state (recorders (run wr supp evs s) ! j) = Recording
                \<and> rec_state (recorders (run wr supp evs s) ! k) = Recording
              \<longrightarrow> j = k"
    unfolding one_session_def by (metis option.inject)
  from a b show ?thesis by blast
qed

lemma one_session_recording_app: "one_session recording_app"
  by (simp add: one_session_def recording_app_def recorder_ondataavailable_def
      startRecording_def webm_only_webm select_webm_only camera_ready_def
      initial_app_def Let_def)

theorem record_button_gate_witness:
  "one_session recording_app \<and> isRecording recording_app
   \<and> recordButton webm_only recording_app = stopRecording recording_app
   \<and> length (recorders (recordButton webm_only recording_app)) = 1
   \<and> recordedChunksRef (recordButton webm_only recording_app) =
       [\<lparr> blob_bytes = [1, 2, 3], blob_type = ''video/webm'' \<rparr>]
   \<and> length (recorders (run clamped_write webm_only [RecordPress, RecordPress] recording_app)) = 2
   \<and> rec_state (recorders (run clamped_write webm_only [RecordPress, RecordPress] recording_app) ! 0) = Inactive
   \<and> rec_state (recorders (run clamped_write webm_only [RecordPress, RecordPress] recording_app) ! 1) = Recording"
proof -
  have r: "isRecording recording_app"
    by (simp add: recording_app_def recorder_ondataavailable_def
      startRecording_def webm_only_webm select_webm_only camera_ready_def
      initial_app_def Let_def)
  note g = record_button_gate [OF one_session_recording_app, of webm_only clamped_write
      "[RecordPress, RecordPress]"]
  have 1: "recordButton webm_only recording_app = stopRecording recording_app"
    using g r by blast
  have 2: "length (recorders (recordButton webm_only recording_app)) = length (recorders recording_app)"
    using g r by blast
  have 3: "recordedChunksRef (recordButton webm_only recording_app) = recordedChunksRef recording_app"
    using g r by blast
  have 4: "length (recorders recording_app) = 1
     \<and> recordedChunksRef recording_app = [\<lparr> blob_bytes = [1, 2, 3], blob_type = ''video/webm'' \<rparr>]"
    by (simp add: recording_app_def recorder_ondataavailable_def
      startRecording_def webm_only_webm select_webm_only camera_ready_def
      initial_app_def Let_def)
  have 5: "length (recorders (run clamped_write webm_only [RecordPress, RecordPress] recording_app)) = 2
   \<and> rec_state (recorders (run clamped_write webm_only [RecordPress, RecordPress] recording_app) ! 0) = Inactive
   \<and> rec_state (recorders (run clamped_write webm_only [RecordPress, RecordPress] recording_app) ! 1) = Recording"
    by (simp add: recordButton_def stopRecording_def recording_app_def recorder_ondataavailable_def
      startRecording_def webm_only_webm select_webm_only camera_ready_def
      initial_app_def Let_def)
  show ?thesis using one_session_recording_app r 1 2 3 4 5 by simp
qed

subsection \<open>Rewinding\<close>

text \<open>
  C10. The rewind button sets the position ref to 0 and assigns 0 to the rendered offset
  of the container when it is mounted; every other field of the state, among them
  \<open>isScrolling\<close>, \<open>isRecording\<close>, the chunk buffer and the result handle, is unchanged.
  With auto-scroll on and no drag in progress the next frame advances from 0.
\<close>

theorem resetScroll_frame:
  "scrollPosRef (resetScroll wr s) = 0
   \<and> (resetScroll wr s)\<lparr> scrollPosRef := scrollPosRef s,
                           scrollContainerRef := scrollContainerRef s \<rparr> = s
   \<and> isScrolling (resetScroll wr s) = isScrolling s
   \<and> isRecording (resetScroll wr s) = isRecording s
   \<and> recordedChunksRef (resetScroll wr s) = recordedChunksRef s
   \<and> videoUrl (resetScroll wr s) = videoUrl s
   \<and> (scrollContainerRef s = None \<longrightarrow> scrollContainerRef (resetScroll wr s) = None)
   \<and> (\<forall>el. scrollContainerRef s = Some el \<longrightarrow>
          scrollContainerRef (resetScroll wr s) = Some (el\<lparr> scrollTop := wr (maxScroll el) 0 \<rparr>)
          \<and> (wr (maxScroll el) 0 = 0 \<longrightarrow>
                scrollContainerRef (resetScroll wr s) = Some (el\<lparr> scrollTop := 0 \<rparr>))
          \<and> (isScrolling s \<and> \<not> isDragging s \<longrightarrow>
                scrollPosRef (animate wr (resetScroll wr s)) =
                  (if speed (config s) * 0.3 \<ge> maxScroll el then maxScroll el
                   else speed (config s) * 0.3)
                \<and> isScrolling (animate wr (resetScroll wr s)) =
                  (speed (config s) * 0.3 < maxScroll el)))"
  by (auto simp: resetScroll_def animate_def set_scrollTop_def maxScroll_def Let_def
      split: option.splits)

theorem resetScroll_frame_witness:
  "scrollContainerRef (scrolling_at 640 2) =
     Some \<lparr> scrollTop = 640, scrollHeight = 1500, clientHeight = 500, offsetTop = 0 \<rparr>
   \<and> clamped_write 1000 0 = 0
   \<and> isScrolling (scrolling_at 640 2) \<and> \<not> isDragging (scrolling_at 640 2)
   \<and> scrollPosRef (resetScroll clamped_write (scrolling_at 640 2)) = 0
   \<and> scrollContainerRef (resetScroll clamped_write (scrolling_at 640 2)) =
        Some \<lparr> scrollTop = 0, scrollHeight = 1500, clientHeight = 500, offsetTop = 0 \<rparr>
   \<and> isScrolling (resetScroll clamped_write (scrolling_at 640 2))
   \<and> scrollPosRef (animate clamped_write (resetScroll clamped_write (scrolling_at 640 2))) = 0.6
   \<and> isScrolling (animate clamped_write (resetScroll clamped_write (scrolling_at 640 2)))"
proof -
  let ?el = "\<lparr> scrollTop = 640, scrollHeight = 1500, clientHeight = 500, offsetTop = 0 \<rparr>"
  have c: "scrollContainerRef (scrolling_at 640 2) = Some ?el"
    by (simp add: scrolling_at_def initial_app_def)
  have w: "clamped_write (maxScroll ?el) 0 = 0" and w': "clamped_write 1000 0 = 0"
    by (simp_all add: clamped_write_def maxScroll_def)
  have f: "isScrolling (scrolling_at 640 2) \<and> \<not> isDragging (scrolling_at 640 2)"
    by (simp add: scrolling_at_def initial_app_def)
  have v: "speed (config (scrolling_at 640 2)) = 2" and m: "maxScroll ?el = 1000"
    by (simp_all add: scrolling_at_def initial_app_def maxScroll_def)
  note r = resetScroll_frame [of clamped_write "scrolling_at 640 2"]
  have 1: "scrollPosRef (resetScroll clamped_write (scrolling_at 640 2)) = 0"
    using r by blast
  have 2: "scrollContainerRef (resetScroll clamped_write (scrolling_at 640 2)) =
      Some (?el\<lparr> scrollTop := 0 \<rparr>)"
    using r c w by blast
  have 3: "isScrolling (resetScroll clamped_write (scrolling_at 640 2))"
    using r f by blast
  have 4: "scrollPosRef (animate clamped_write (resetScroll clamped_write (scrolling_at 640 2))) =
                  (if speed (config (scrolling_at 640 2)) * 0.3 \<ge> maxScroll ?el then maxScroll ?el
                   else speed (config (scrolling_at 640 2)) * 0.3)
                \<and> isScrolling (animate clamped_write (resetScroll clamped_write (scrolling_at 640 2))) =
                  (speed (config (scrolling_at 640 2)) * 0.3 < maxScroll ?el)"
    using r c f by blast
  show ?thesis using c w' f 1 2 3 4 by (simp add: v m)
qed

subsection \<open>Sharing the application\<close>




subsection \<open>Switching the camera\<close>

lemma calls_initCamera_settle:
  "\<exists>more. calls (initCamera_settle out s) = calls s @ more"
  by (auto simp: initCamera_settle_def Let_def split: option.splits)

lemma calls_initCamera_sync:
  assumes "streamRef s = Some old"
  shows "calls (initCamera_sync s) =
           calls s @ map TrackStop (stream_tracks old) @ [GetUserMedia (Ideal (facingMode s))]"
    and "streamRef (initCamera_sync s) = None"
  using assms
  by (auto simp: initCamera_sync_def release_held_def clear_video_def Let_def
      split: option.splits)

lemma live_tracks_stopped:
  assumes "set (map TrackStop (stream_tracks st)) \<subseteq> set (calls s)"
  shows "live_tracks s st = []"
  using assms by (auto simp: live_tracks_def filter_empty_conv)

text \<open>
  Release before request. When a stream is held, \<^verbatim>\<open>initCamera\<close> stops each of its
  tracks and drops it, and only then issues the request for the new stream; so does the press on the camera button, which
  runs the effect's cleanup and then \<^verbatim>\<open>initCamera\<close> with the other facing mode. When the
  request is issued, and when the browser has answered it, no track of the stream held
  before is live.
\<close>

theorem camera_switch_releases_first:
  assumes "streamRef s = Some old"
  shows "calls (initCamera_sync s) =
           calls s @ map TrackStop (stream_tracks old) @ [GetUserMedia (Ideal (facingMode s))]
         \<and> streamRef (initCamera_sync s) = None
         \<and> calls (switch_camera_sync s) =
             calls s @ map TrackStop (stream_tracks old) @ map TrackStop (stream_tracks old)
               @ [GetUserMedia (Ideal (if facingMode s = User then Environment else User))]
         \<and> streamRef (switch_camera_sync s) = None
         \<and> live_tracks (switch_camera_sync s) old = []
         \<and> live_tracks (initCamera_settle out (switch_camera_sync s)) old = []
         \<and> live_tracks (initCamera out s) old = []"
proof -
  have c: "streamRef (camera_effect_cleanup (toggleCamera s)) = Some old"
    and d: "calls (camera_effect_cleanup (toggleCamera s)) =
              calls s @ map TrackStop (stream_tracks old)"
    and f: "facingMode (camera_effect_cleanup (toggleCamera s)) =
              (if facingMode s = User then Environment else User)"
    using assms by (simp_all add: camera_effect_cleanup_def toggleCamera_def)
  have 1: "calls (switch_camera_sync s) =
             calls s @ map TrackStop (stream_tracks old) @ map TrackStop (stream_tracks old)
               @ [GetUserMedia (Ideal (if facingMode s = User then Environment else User))]"
    unfolding switch_camera_sync_def calls_initCamera_sync(1) [OF c] d f by simp
  have 2: "streamRef (switch_camera_sync s) = None"
    unfolding switch_camera_sync_def by (rule calls_initCamera_sync(2) [OF c])
  have 3: "live_tracks (switch_camera_sync s) old = []"
    by (rule live_tracks_stopped) (auto simp: 1)
  obtain more where m: "calls (initCamera_settle out (switch_camera_sync s)) =
      calls (switch_camera_sync s) @ more"
    using calls_initCamera_settle by blast
  have 4: "live_tracks (initCamera_settle out (switch_camera_sync s)) old = []"
    by (rule live_tracks_stopped) (auto simp: m 1)
  obtain more' where m': "calls (initCamera_settle out (initCamera_sync s)) =
      calls (initCamera_sync s) @ more'"
    using calls_initCamera_settle by blast
  have 5: "live_tracks (initCamera out s) old = []"
    unfolding initCamera_def
    by (rule live_tracks_stopped) (auto simp: m' calls_initCamera_sync(1) [OF assms])
  show ?thesis
    using calls_initCamera_sync [OF assms] 1 2 3 4 5 by simp
qed

theorem camera_switch_releases_first_witness:
  "streamRef camera_ready = Some front_camera
   \<and> calls (switch_camera_sync camera_ready) =
       [TrackStop 10, TrackStop 11, TrackStop 10, TrackStop 11, GetUserMedia (Ideal Environment)]
   \<and> streamRef (switch_camera_sync camera_ready) = None
   \<and> live_tracks (initCamera_settle back_granted (switch_camera_sync camera_ready)) front_camera = []
   \<and> streamRef (initCamera_settle back_granted (switch_camera_sync camera_ready)) = Some back_camera"
proof -
  have s: "streamRef camera_ready = Some front_camera"
    by (simp add: camera_ready_def initial_app_def)
  have e: "calls camera_ready = []" "facingMode camera_ready = User"
    "stream_tracks front_camera = [10, 11]"
    by (simp_all add: camera_ready_def initial_app_def front_camera_def)
  have n: "streamRef (initCamera_settle back_granted (switch_camera_sync camera_ready)) =
      Some back_camera"
    by (simp add: initCamera_settle_def back_granted_def Let_def split: option.splits)
  show ?thesis
    using camera_switch_releases_first [OF s, of back_granted] s n by (simp add: e)
qed

text \<open>
  C7. The release precedes the request, as shown above, but it does not follow that two
  live streams are never held. The continuation of \<^verbatim>\<open>initCamera\<close> stores the stream it is
  given over whatever \<open>streamRef\<close> holds by then, without stopping it. With the front camera
  held, two presses on the camera button, the second before the first request is answered,
  end with both granted streams live: the first is no longer referenced and can never be
  stopped.
\<close>

theorem camera_double_toggle_leak:
  "streamRef camera_ready = Some front_camera
   \<and> calls double_toggle =
       [TrackStop 10, TrackStop 11, TrackStop 10, TrackStop 11,
        GetUserMedia (Ideal Environment), GetUserMedia (Ideal User)]
   \<and> streamRef double_toggle = Some front_again
   \<and> live_tracks double_toggle front_camera = []
   \<and> live_tracks double_toggle back_camera = [20, 21]
   \<and> live_tracks double_toggle front_again = [30, 31]"
  by (simp add: double_toggle_def initCamera_settle_def switch_camera_sync_def
      initCamera_sync_def release_held_def clear_video_def camera_effect_cleanup_def
      toggleCamera_def live_tracks_def camera_ready_def initial_app_def front_camera_def
      back_camera_def front_again_def back_granted_def front_again_granted_def Let_def)

subsection \<open>The range of the scroll position\<close>



lemma maxScroll_set_scrollTop [simp]: "maxScroll (set_scrollTop wr v el) = maxScroll el"
  by (simp add: set_scrollTop_def maxScroll_def)

lemma scrollTop_set_scrollTop [simp]: "scrollTop (set_scrollTop wr v el) = wr (maxScroll el) v"
  by (simp add: set_scrollTop_def)





lemma config_handle [simp]: "config (handle wr supp e s) = config s"
  by (cases e)
    (auto simp: animate_def handleMouseDown_def handleMouseMove_def handleMouseUp_def
      handleTouchStart_def toggleScrolling_def resetScroll_def recordButton_def
      startRecording_def stopRecording_def Let_def split: option.splits)








subsection \<open>Dragging suspends auto-scroll\<close>

lemma not_scrolling_handle:
  assumes "\<not> reenables e" and "\<not> isScrolling s"
  shows "\<not> isScrolling (handle wr supp e s)"
  using assms
  by (cases e)
    (auto simp: animate_def handleMouseDown_def handleMouseMove_def handleMouseUp_def
      handleTouchStart_def resetScroll_def Let_def split: option.splits)

lemma not_scrolling_run:
  "\<forall>e\<in>set evs. \<not> reenables e \<Longrightarrow> \<not> isScrolling s \<Longrightarrow> \<not> isScrolling (run wr supp evs s)"
proof (induction evs arbitrary: s)
  case Nil
  then show ?case by simp
next
  case (Cons e evs)
  then show ?case by (simp add: not_scrolling_handle)
qed

text \<open>
  C6. On a mounted container, after the pointer-down \<open>isScrolling\<close> is false, and it is
  false after every further event of the drag (pointer moves, frames, the pointer-up or
  pointer-leave that ends it) and of what follows, up to the first press of the play button
  or the record button.
\<close>

theorem drag_suspends_auto_scroll:
  assumes "scrollContainerRef s = Some el" and "\<forall>e\<in>set evs. \<not> reenables e"
  shows "\<forall>n. \<not> isScrolling (run wr supp (MouseDown y # take n evs) s)"
proof
  fix n
  have "\<not> isScrolling (handleMouseDown y s)"
    using assms(1) by (simp add: handleMouseDown_def)
  moreover have "\<forall>e\<in>set (take n evs). \<not> reenables e"
    using assms(2) by (auto dest: in_set_takeD)
  ultimately show "\<not> isScrolling (run wr supp (MouseDown y # take n evs) s)"
    by (simp add: not_scrolling_run)
qed

theorem drag_suspends_auto_scroll_witness:
  "scrollContainerRef (scrolling_at 100 10) =
     Some \<lparr> scrollTop = 100, scrollHeight = 1500, clientHeight = 500, offsetTop = 0 \<rparr>
   \<and> isScrolling (scrolling_at 100 10)
   \<and> \<not> isScrolling (run clamped_write webm_only [MouseDown 300] (scrolling_at 100 10))
   \<and> \<not> isScrolling
         (run clamped_write webm_only [MouseDown 300, MouseMove 250, Frame, MouseMove 180]
           (scrolling_at 100 10))
   \<and> \<not> isScrolling
         (run clamped_write webm_only
           [MouseDown 300, MouseMove 250, Frame, MouseMove 180, MouseUp, Frame]
           (scrolling_at 100 10))"
proof -
  let ?evs = "[MouseMove 250, Frame, MouseMove 180, MouseUp, Frame]"
  have c: "scrollContainerRef (scrolling_at 100 10) =
     Some \<lparr> scrollTop = 100, scrollHeight = 1500, clientHeight = 500, offsetTop = 0 \<rparr>"
    and i: "isScrolling (scrolling_at 100 10)"
    by (simp_all add: scrolling_at_def initial_app_def)
  have e: "\<forall>e\<in>set ?evs. \<not> reenables e" by simp
  note d = drag_suspends_auto_scroll [OF c e, of clamped_write webm_only 300]
  have 0: "\<not> isScrolling (run clamped_write webm_only (MouseDown 300 # take 0 ?evs)
      (scrolling_at 100 10))"
    using d by blast
  have 3: "\<not> isScrolling (run clamped_write webm_only (MouseDown 300 # take 3 ?evs)
      (scrolling_at 100 10))"
    using d by blast
  have 5: "\<not> isScrolling (run clamped_write webm_only (MouseDown 300 # take 5 ?evs)
      (scrolling_at 100 10))"
    using d by blast
  have t: "take 0 ?evs = []" "take 3 ?evs = [MouseMove 250, Frame, MouseMove 180]"
    "take 5 ?evs = ?evs"
    by (simp_all add: numeral_3_eq_3)
  show ?thesis
    using c i 0 3 5 unfolding t by blast
qed

end
